theory Spec2Isabelle
  imports Complex_Main "HOL-Library.AList"
begin

section \<open>Python values, exceptions and the numeric coercion\<close>

text \<open>
  Feature values are arbitrary Python objects (\<^verbatim>\<open>feat_value (any)\<close> in the docstrings of
  \<^verbatim>\<open>_collect_feature\<close> and \<^verbatim>\<open>_map_feature\<close>). The fragment of Python's object universe
  that the binning code distinguishes is modelled here. Floating-point numbers are idealised
  as real numbers: rounding, infinities and nan are not represented.
\<close>

datatype pyval =
    PNone
  | PBool bool
  | PInt int
  | PFloat real
  | PStr string
  | PList "pyval list"

text \<open>
  The exceptions the modelled code can meet. \<open>NanStatistics\<close> is not a Python exception:
  \<^verbatim>\<open>np.mean\<close> and \<^verbatim>\<open>np.std\<close> of an empty list return nan (with a warning), which the real
  numbers cannot hold, so the model stops with this outcome instead.
\<close>

datatype pyerr =
    ValueError
  | TypeError
  | ZeroDivisionError
  | IndexError
  | KeyError
  | NanStatistics

text \<open>
  The builtin \<^verbatim>\<open>float(x)\<close>. Numbers and booleans convert; a string converts when it parses
  as a number and raises \<^verbatim>\<open>ValueError\<close> otherwise; \<^verbatim>\<open>None\<close> and lists raise \<^verbatim>\<open>TypeError\<close>.
  The grammar of numeric strings belongs to the interpreter, so the string parser is a
  parameter \<open>pf\<close> of the model. With floats idealised as reals every integer converts;
  the \<^verbatim>\<open>OverflowError\<close> of an integer beyond the float range is not represented.
\<close>

fun py_float :: "(string \<Rightarrow> real option) \<Rightarrow> pyval \<Rightarrow> pyerr + real" where
  "py_float pf PNone = Inl TypeError"
| "py_float pf (PBool b) = Inr (if b then 1 else 0)"
| "py_float pf (PInt i) = Inr (real_of_int i)"
| "py_float pf (PFloat r) = Inr r"
| "py_float pf (PStr s) = (case pf s of None \<Rightarrow> Inl ValueError | Some r \<Rightarrow> Inr r)"
| "py_float pf (PList xs) = Inl TypeError"

text \<open>
  A parser for the concrete examples: an optional sign followed by decimal digits, which
  is a fragment of what \<^verbatim>\<open>float\<close> accepts.
\<close>

definition digit_val :: "char \<Rightarrow> nat option" where
  "digit_val c =
     (let code = (of_char c :: nat)
      in if 48 \<le> code \<and> code \<le> 57 then Some (code - 48) else None)"

fun parse_digits :: "nat \<Rightarrow> string \<Rightarrow> nat option" where
  "parse_digits acc [] = Some acc"
| "parse_digits acc (c # cs) =
     (case digit_val c of None \<Rightarrow> None | Some d \<Rightarrow> parse_digits (10 * acc + d) cs)"

fun parse_decimal :: "string \<Rightarrow> real option" where
  "parse_decimal [] = None"
| "parse_decimal (c # cs) =
     (if c = CHR ''-'' then
        (if cs = [] then None else map_option (\<lambda>n. - real n) (parse_digits 0 cs))
      else map_option real (parse_digits 0 (c # cs)))"

section \<open>The numpy functions used by the mapper\<close>

definition np_mean :: "real list \<Rightarrow> real" where
  "np_mean xs = sum_list xs / real (length xs)"

text \<open>\<^verbatim>\<open>np.std\<close> with its default \<^verbatim>\<open>ddof=0\<close>: the population standard deviation.\<close>

definition np_std :: "real list \<Rightarrow> real" where
  "np_std xs = sqrt (np_mean (map (\<lambda>x. (x - np_mean xs)\<^sup>2) xs))"

text \<open>
  \<^verbatim>\<open>np.searchsorted(a, v)\<close> with its default \<^verbatim>\<open>side='left'\<close> is a binary search that
  moves the lower end past every probed element smaller than the key.
\<close>

function bsearch_left :: "real list \<Rightarrow> real \<Rightarrow> nat \<Rightarrow> nat \<Rightarrow> nat" where
  "bsearch_left a key lo hi =
     (if lo < hi then
        (let mid = lo + (hi - lo) div 2 in
         if a ! mid < key then bsearch_left a key (mid + 1) hi
         else bsearch_left a key lo mid)
      else lo)"
  by pat_completeness auto
termination
  by (relation "measure (\<lambda>(a, key, lo, hi). hi - lo)") auto

definition searchsorted :: "real list \<Rightarrow> real \<Rightarrow> nat" where
  "searchsorted a v = bsearch_left a v 0 (length a)"

text \<open>\<^verbatim>\<open>int(x)\<close> on a float truncates toward zero.\<close>

definition py_int :: "real \<Rightarrow> int" where
  "py_int x = (if 0 \<le> x then \<lfloor>x\<rfloor> else \<lceil>x\<rceil>)"

section \<open>FeatureMapper\<close>

definition ZERO :: real where
  "ZERO = 1 / 10 ^ 20"

record FeatureMapper =
  fm_num_std :: real
  fm_size_std :: real
  fm_values :: "real list"
  fm_std :: "real option"
  fm_mean :: "real option"
  fm_std_bins :: "real list"
  fm_feat_name :: "string option"

definition FeatureMapper_init :: "real \<Rightarrow> real \<Rightarrow> FeatureMapper" where
  "FeatureMapper_init num_std size_std =
     \<lparr> fm_num_std = num_std, fm_size_std = size_std, fm_values = [],
       fm_std = None, fm_mean = None, fm_std_bins = [], fm_feat_name = None \<rparr>"

definition add_value :: "FeatureMapper \<Rightarrow> real \<Rightarrow> FeatureMapper" where
  "add_value self v = self\<lparr> fm_values := fm_values self @ [v] \<rparr>"

text \<open>The \<^verbatim>\<open>while num_bin > 0 and self.std > ZERO\<close> loop of \<^verbatim>\<open>fit\<close>.\<close>

function fit_loop :: "int \<Rightarrow> real \<Rightarrow> real \<Rightarrow> real \<Rightarrow> real list \<Rightarrow> real list" where
  "fit_loop num_bin sd size_std range_start bins =
     (if num_bin > 0 \<and> sd > ZERO then
        (let range_start' = range_start + sd * size_std in
         fit_loop (num_bin - 1) sd size_std range_start' (bins @ [range_start']))
      else bins)"
  by pat_completeness auto
termination
  by (relation "measure (\<lambda>(num_bin, sd, size_std, range_start, bins). nat num_bin)") auto

text \<open>
  \<^verbatim>\<open>FeatureMapper.fit\<close>. The division \<^verbatim>\<open>self._num_std / self._size_std\<close> raises
  \<^verbatim>\<open>ZeroDivisionError\<close> for a zero \<^verbatim>\<open>size_std\<close>.
\<close>

definition FeatureMapper_fit :: "FeatureMapper \<Rightarrow> pyerr + FeatureMapper" where
  "FeatureMapper_fit self =
     (if fm_values self = [] then Inl NanStatistics
      else
        (let sd = np_std (fm_values self);
             mu = np_mean (fm_values self);
             range_start = mu - sd * fm_num_std self
         in if fm_size_std self = 0 then Inl ZeroDivisionError
            else
              (let num_bin = 2 * py_int (fm_num_std self / fm_size_std self);
                   bins = fit_loop num_bin sd (fm_size_std self) range_start [range_start]
               in Inr (self\<lparr> fm_std := Some sd, fm_mean := Some mu, fm_std_bins := bins \<rparr>))))"

definition map_bucket :: "FeatureMapper \<Rightarrow> real \<Rightarrow> nat" where
  "map_bucket self v = searchsorted (fm_std_bins self) v"

section \<open>FeatureBinner\<close>

text \<open>
  A Python \<^verbatim>\<open>dict\<close> is an association list in insertion order with distinct keys;
  \<^verbatim>\<open>d[k] = v\<close> is \<^const>\<open>AList.update\<close> (overwrite in place, or append), lookup is
  \<^const>\<open>map_of\<close>. A token is a dict from feature names to values, a sentence a list of
  tokens, a dataset a list of sentences.
\<close>

type_synonym token = "(string \<times> pyval) list"

record FeatureBinner =
  features :: "(string \<times> FeatureMapper) list"

definition FeatureBinner_init :: FeatureBinner where
  "FeatureBinner_init = \<lparr> features = [] \<rparr>"

text \<open>
  \<^verbatim>\<open>_collect_feature\<close>: only \<^verbatim>\<open>ValueError\<close> is caught, any other exception of the
  coercion leaves the method. New mappers get the constructor's defaults
  \<^verbatim>\<open>num_std=2, size_std=0.5\<close>.
\<close>

definition collect_feature ::
  "(string \<Rightarrow> real option) \<Rightarrow> FeatureBinner \<Rightarrow> string \<Rightarrow> pyval \<Rightarrow> pyerr + FeatureBinner" where
  "collect_feature pf self feat_name feat_value =
     (case py_float pf feat_value of
        Inl e \<Rightarrow> if e = ValueError then Inr self else Inl e
      | Inr x \<Rightarrow>
          (let mapper = (case map_of (features self) feat_name of
                           None \<Rightarrow> FeatureMapper_init 2 (1 / 2)
                         | Some m \<Rightarrow> m);
               mapper = mapper\<lparr> fm_feat_name := Some feat_name \<rparr>;
               mapper = add_value mapper x
           in Inr (self\<lparr> features := AList.update feat_name mapper (features self) \<rparr>)))"

text \<open>The three nested \<^verbatim>\<open>for\<close> loops of \<^verbatim>\<open>FeatureBinner.fit\<close>.\<close>

fun collect_word ::
  "(string \<Rightarrow> real option) \<Rightarrow> FeatureBinner \<Rightarrow> token \<Rightarrow> pyerr + FeatureBinner" where
  "collect_word pf self [] = Inr self"
| "collect_word pf self ((feat_name, feat_value) # rest) =
     (case collect_feature pf self feat_name feat_value of
        Inl e \<Rightarrow> Inl e
      | Inr self' \<Rightarrow> collect_word pf self' rest)"

fun collect_sentence ::
  "(string \<Rightarrow> real option) \<Rightarrow> FeatureBinner \<Rightarrow> token list \<Rightarrow> pyerr + FeatureBinner" where
  "collect_sentence pf self [] = Inr self"
| "collect_sentence pf self (word # rest) =
     (case collect_word pf self word of
        Inl e \<Rightarrow> Inl e
      | Inr self' \<Rightarrow> collect_sentence pf self' rest)"

fun collect_dataset ::
  "(string \<Rightarrow> real option) \<Rightarrow> FeatureBinner \<Rightarrow> token list list \<Rightarrow> pyerr + FeatureBinner" where
  "collect_dataset pf self [] = Inr self"
| "collect_dataset pf self (sentence # rest) =
     (case collect_sentence pf self sentence of
        Inl e \<Rightarrow> Inl e
      | Inr self' \<Rightarrow> collect_dataset pf self' rest)"

text \<open>\<^verbatim>\<open>for mapper in self.features.values(): mapper.fit()\<close>\<close>

fun fit_mappers :: "(string \<times> FeatureMapper) list \<Rightarrow> pyerr + (string \<times> FeatureMapper) list" where
  "fit_mappers [] = Inr []"
| "fit_mappers ((name, mapper) # rest) =
     (case FeatureMapper_fit mapper of
        Inl e \<Rightarrow> Inl e
      | Inr mapper' \<Rightarrow>
          (case fit_mappers rest of
             Inl e \<Rightarrow> Inl e
           | Inr rest' \<Rightarrow> Inr ((name, mapper') # rest')))"

definition FeatureBinner_fit ::
  "(string \<Rightarrow> real option) \<Rightarrow> FeatureBinner \<Rightarrow> token list list \<Rightarrow> pyerr + FeatureBinner" where
  "FeatureBinner_fit pf self X_train =
     (case collect_dataset pf self X_train of
        Inl e \<Rightarrow> Inl e
      | Inr self' \<Rightarrow>
          (case fit_mappers (features self') of
             Inl e \<Rightarrow> Inl e
           | Inr fs \<Rightarrow> Inr (self'\<lparr> features := fs \<rparr>)))"

text \<open>
  \<^verbatim>\<open>_map_feature\<close> returns a one-entry dict. The local \<^verbatim>\<open>feat_value\<close> is rebound to the
  float before the membership test, so the second \<^verbatim>\<open>return\<close> holds the coerced number.
  The bucket is a numpy integer.
\<close>

definition map_feature ::
  "(string \<Rightarrow> real option) \<Rightarrow> FeatureBinner \<Rightarrow> string \<Rightarrow> pyval \<Rightarrow> pyerr + token" where
  "map_feature pf self feat_name feat_value =
     (case py_float pf feat_value of
        Inl e \<Rightarrow> if e = ValueError then Inr [(feat_name, feat_value)] else Inl e
      | Inr x \<Rightarrow>
          (case map_of (features self) feat_name of
             None \<Rightarrow> Inr [(feat_name, PFloat x)]
           | Some mapper \<Rightarrow> Inr [(feat_name, PInt (int (map_bucket mapper x)))]))"

text \<open>\<^verbatim>\<open>new_word.update(new_feats)\<close>\<close>

fun dict_update :: "token \<Rightarrow> token \<Rightarrow> token" where
  "dict_update d [] = d"
| "dict_update d ((k, v) # rest) = dict_update (AList.update k v d) rest"

text \<open>The loop over \<^verbatim>\<open>word.items()\<close> in \<^verbatim>\<open>transform\<close>, with \<^verbatim>\<open>new_word\<close> as accumulator.\<close>

fun transform_word ::
  "(string \<Rightarrow> real option) \<Rightarrow> FeatureBinner \<Rightarrow> token \<Rightarrow> token \<Rightarrow> pyerr + token" where
  "transform_word pf self new_word [] = Inr new_word"
| "transform_word pf self new_word ((feat_name, feat_value) # rest) =
     (case map_feature pf self feat_name feat_value of
        Inl e \<Rightarrow> Inl e
      | Inr new_feats \<Rightarrow>
          transform_word pf self
            (if new_feats \<noteq> [] then dict_update new_word new_feats else new_word) rest)"

fun transform_sentence ::
  "(string \<Rightarrow> real option) \<Rightarrow> FeatureBinner \<Rightarrow> token list \<Rightarrow> pyerr + token list" where
  "transform_sentence pf self [] = Inr []"
| "transform_sentence pf self (word # rest) =
     (case transform_word pf self [] word of
        Inl e \<Rightarrow> Inl e
      | Inr new_word \<Rightarrow>
          (case transform_sentence pf self rest of
             Inl e \<Rightarrow> Inl e
           | Inr new_rest \<Rightarrow> Inr (new_word # new_rest)))"

fun transform ::
  "(string \<Rightarrow> real option) \<Rightarrow> FeatureBinner \<Rightarrow> token list list \<Rightarrow> pyerr + token list list" where
  "transform pf self [] = Inr []"
| "transform pf self (sentence # rest) =
     (case transform_sentence pf self sentence of
        Inl e \<Rightarrow> Inl e
      | Inr new_sentence \<Rightarrow>
          (case transform pf self rest of
             Inl e \<Rightarrow> Inl e
           | Inr new_rest \<Rightarrow> Inr (new_sentence # new_rest)))"


section \<open>CRFTagger\<close>

text \<open>
  The underlying \<^verbatim>\<open>CRFModel\<close> is used through \<^verbatim>\<open>predict\<close> and \<^verbatim>\<open>predict_marginals\<close>
  only; both are deterministic functions of the feature matrix. A marginal is a dict from
  labels to probabilities.
\<close>

record 'l CRFModel =
  clf_predict :: "token list list \<Rightarrow> 'l list list"
  clf_predict_marginals :: "token list list \<Rightarrow> ('l \<rightharpoonup> real) list list"

record 'l CRFTagger =
  clf :: "'l CRFModel"
  feat_binner :: FeatureBinner

definition predict :: "'l CRFTagger \<Rightarrow> token list list \<Rightarrow> 'l list list" where
  "predict self X = clf_predict (clf self) X"

text \<open>\<^verbatim>\<open>_preprocess_data\<close>: fit the binner when asked, then copy the transformed rows.\<close>

definition preprocess_data ::
  "(string \<Rightarrow> real option) \<Rightarrow> 'l CRFTagger \<Rightarrow> token list list \<Rightarrow> bool \<Rightarrow>
     pyerr + ('l CRFTagger \<times> token list list)" where
  "preprocess_data pf self X fit =
     (case (if fit then FeatureBinner_fit pf (feat_binner self) X else Inr (feat_binner self)) of
        Inl e \<Rightarrow> Inl e
      | Inr b \<Rightarrow>
          (case transform pf b X of
             Inl e \<Rightarrow> Inl e
           | Inr new_X \<Rightarrow> Inr (self\<lparr> feat_binner := b \<rparr>, new_X)))"

text \<open>
  \<^verbatim>\<open>extract_features\<close>; the per-example extractor \<^verbatim>\<open>extract_sequence_features\<close> with its
  configuration and resources is the parameter \<open>extract\<close>.
\<close>

definition extract_features ::
  "(string \<Rightarrow> real option) \<Rightarrow> ('e \<Rightarrow> token list) \<Rightarrow> 'l CRFTagger \<Rightarrow> 'e list \<Rightarrow> bool \<Rightarrow>
     pyerr + ('l CRFTagger \<times> token list list)" where
  "extract_features pf extract self examples fit =
     preprocess_data pf self (map extract examples) fit"

text \<open>Indexing a list and a dict, with the exceptions they raise.\<close>

definition list_get :: "'a list \<Rightarrow> nat \<Rightarrow> pyerr + 'a" where
  "list_get xs i = (if i < length xs then Inr (xs ! i) else Inl IndexError)"

definition dict_get :: "('k \<rightharpoonup> 'v) \<Rightarrow> 'k \<Rightarrow> pyerr + 'v" where
  "dict_get d k = (case d k of None \<Rightarrow> Inl KeyError | Some v \<Rightarrow> Inr v)"

text \<open>The lookup \<^verbatim>\<open>marginals_dict[query_index][i][tag]\<close>.\<close>

definition marginal_at ::
  "('l \<rightharpoonup> real) list list \<Rightarrow> nat \<Rightarrow> nat \<Rightarrow> 'l \<Rightarrow> pyerr + real" where
  "marginal_at marginals_dict query_index i tag =
     (case list_get marginals_dict query_index of
        Inl e \<Rightarrow> Inl e
      | Inr row \<Rightarrow>
          (case list_get row i of
             Inl e \<Rightarrow> Inl e
           | Inr marginal \<Rightarrow> dict_get marginal tag))"

text \<open>
  The inner loop \<^verbatim>\<open>for i, tag in enumerate(query_seq)\<close> of \<^verbatim>\<open>predict_proba\<close>, with
  \<open>i\<close> as the running index.
\<close>

fun query_marginal_tuples ::
  "('l \<rightharpoonup> real) list list \<Rightarrow> nat \<Rightarrow> nat \<Rightarrow> 'l list \<Rightarrow> pyerr + ('l \<times> real) list" where
  "query_marginal_tuples marginals_dict query_index i [] = Inr []"
| "query_marginal_tuples marginals_dict query_index i (tag # rest) =
     (case marginal_at marginals_dict query_index i tag of
        Inl e \<Rightarrow> Inl e
      | Inr p \<Rightarrow>
          (case query_marginal_tuples marginals_dict query_index (Suc i) rest of
             Inl e \<Rightarrow> Inl e
           | Inr tuples \<Rightarrow> Inr ((tag, p) # tuples)))"

text \<open>The outer loop \<^verbatim>\<open>for query_index, query_seq in enumerate(seq)\<close>.\<close>

fun marginal_tuples ::
  "('l \<rightharpoonup> real) list list \<Rightarrow> nat \<Rightarrow> 'l list list \<Rightarrow> pyerr + ('l \<times> real) list list" where
  "marginal_tuples marginals_dict query_index [] = Inr []"
| "marginal_tuples marginals_dict query_index (query_seq # rest) =
     (case query_marginal_tuples marginals_dict query_index 0 query_seq of
        Inl e \<Rightarrow> Inl e
      | Inr tuples \<Rightarrow>
          (case marginal_tuples marginals_dict (Suc query_index) rest of
             Inl e \<Rightarrow> Inl e
           | Inr others \<Rightarrow> Inr (tuples # others)))"

definition predict_proba ::
  "(string \<Rightarrow> real option) \<Rightarrow> ('e \<Rightarrow> token list) \<Rightarrow> 'l CRFTagger \<Rightarrow> 'e list \<Rightarrow>
     pyerr + ('l \<times> real) list list" where
  "predict_proba pf extract self examples =
     (case extract_features pf extract self examples False of
        Inl e \<Rightarrow> Inl e
      | Inr (self', X) \<Rightarrow>
          (let seq = clf_predict (clf self') X;
               marginals_dict = clf_predict_marginals (clf self') X
           in marginal_tuples marginals_dict 0 seq))"

section \<open>Classifier.load\<close>

text \<open>
  Modelled from the spec: the module \<^verbatim>\<open>..exceptions\<close>, from which \<^verbatim>\<open>load\<close> imports
  \<^verbatim>\<open>ClassifierLoadError\<close> and \<^verbatim>\<open>FileNotFoundError\<close>, is not among the source files.
  \<open>FileNotFoundError\<close> is the class that the \<^verbatim>\<open>except\<close> clause of \<^verbatim>\<open>load\<close> names, the
  low-level file-not-found error of the spec; \<open>ClassifierLoadError\<close> is its "model load
  failed" error and carries a message; \<open>OtherError\<close> stands for every exception that is
  an instance of neither.
\<close>

datatype exn =
    FileNotFoundError
  | ClassifierLoadError string
  | OtherError string

record 'm Classifier =
  class_name :: string
  model :: "'m option"

text \<open>
  Modelled from the spec: \<^verbatim>\<open>joblib.load\<close> is a library function outside the source
  files. The file system maps a path to the file stored there; a path with no file raises
  the file-not-found error (the spec's "missing persisted weights file at load time"),
  and \<open>unpickle\<close> reads a file that exists, which may fail in other ways.
\<close>

definition joblib_load :: "(string \<rightharpoonup> 'f) \<Rightarrow> ('f \<Rightarrow> exn + 'm) \<Rightarrow> string \<Rightarrow> exn + 'm" where
  "joblib_load fs unpickle model_path =
     (case fs model_path of
        None \<Rightarrow> Inl FileNotFoundError
      | Some file \<Rightarrow> unpickle file)"

text \<open>
  \<^verbatim>\<open>'Unable to load {}. Pickle file not found at {!r}'.format(name, path)\<close>; the
  conversion \<^verbatim>\<open>!r\<close> is the builtin \<^verbatim>\<open>repr\<close>, a parameter here.
\<close>

definition load_msg :: "(string \<Rightarrow> string) \<Rightarrow> string \<Rightarrow> string \<Rightarrow> string" where
  "load_msg repr name model_path =
     ''Unable to load '' @ name @ ''. Pickle file not found at '' @ repr model_path"

text \<open>
  \<^verbatim>\<open>Classifier.load\<close> returns the classifier after the call together with the exception
  that left the method, if any. The assignment to \<^verbatim>\<open>self._model\<close> happens only when
  \<^verbatim>\<open>joblib.load\<close> returns.
\<close>

definition load ::
  "(string \<Rightarrow> string) \<Rightarrow> (string \<rightharpoonup> 'f) \<Rightarrow> ('f \<Rightarrow> exn + 'm) \<Rightarrow> 'm Classifier \<Rightarrow> string \<Rightarrow>
     'm Classifier \<times> exn option" where
  "load repr fs unpickle self model_path =
     (case joblib_load fs unpickle model_path of
        Inr m \<Rightarrow> (self\<lparr> model := Some m \<rparr>, None)
      | Inl e \<Rightarrow>
          (if e = FileNotFoundError
           then (self, Some (ClassifierLoadError (load_msg repr (class_name self) model_path)))
           else (self, Some e)))"

section \<open>Concrete mappers\<close>

text \<open>
  \<^verbatim>\<open>FeatureMapper()\<close> after \<^verbatim>\<open>add_value(5.0)\<close>, and the mapper that \<^verbatim>\<open>fit\<close> leaves: the
  standard deviation of a single value is zero, so the loop adds no boundary.
\<close>

definition constant_mapper :: FeatureMapper where
  "constant_mapper = add_value (FeatureMapper_init 2 (1 / 2)) 5"

definition constant_fitted :: FeatureMapper where
  "constant_fitted =
     \<lparr> fm_num_std = 2, fm_size_std = 1 / 2, fm_values = [5],
       fm_std = Some 0, fm_mean = Some 5, fm_std_bins = [5], fm_feat_name = None \<rparr>"

text \<open>
  The scenario \<^verbatim>\<open>num_std=2, size_std=0.5, values=[1,2,3,4,5]\<close> and the mapper that
  \<^verbatim>\<open>fit\<close> leaves.
\<close>

definition scenario_mapper :: FeatureMapper where
  "scenario_mapper = foldl add_value (FeatureMapper_init 2 (1 / 2)) [1, 2, 3, 4, 5]"

definition scenario_fitted :: FeatureMapper where
  "scenario_fitted =
     \<lparr> fm_num_std = 2, fm_size_std = 1 / 2, fm_values = [1, 2, 3, 4, 5],
       fm_std = Some (sqrt 2), fm_mean = Some 3,
       fm_std_bins = map (\<lambda>k. 3 - 2 * sqrt 2 + real k * (sqrt 2 / 2)) [0..<9],
       fm_feat_name = None \<rparr>"



section \<open>Concrete binners\<close>

text \<open>
  A new binner after the collection loops of \<^verbatim>\<open>fit\<close> have run over the dataset
  \<^verbatim>\<open>[[{"len": 5}]]\<close>, and the binner that \<^verbatim>\<open>fit\<close> leaves.
\<close>

definition len_collected :: FeatureBinner where
  "len_collected = \<lparr> features = [(''len'', constant_mapper\<lparr> fm_feat_name := Some ''len'' \<rparr>)] \<rparr>"

definition len_binner :: FeatureBinner where
  "len_binner = \<lparr> features = [(''len'', constant_fitted\<lparr> fm_feat_name := Some ''len'' \<rparr>)] \<rparr>"

section \<open>A concrete tagger and a concrete classifier\<close>

text \<open>
  A tagger over string labels whose model predicts the single label \<^verbatim>\<open>B\<close> for a
  one-token query while the marginal of that token gives \<^verbatim>\<open>B\<close> the mass 0.3 and \<^verbatim>\<open>O\<close> the
  mass 0.7; the extractor yields one token with the word as its feature.
\<close>

definition example_tagger :: "string CRFTagger" where
  "example_tagger =
     \<lparr> clf = \<lparr> clf_predict = (\<lambda>X. [[''B'']]),
               clf_predict_marginals = (\<lambda>X. [[[''O'' \<mapsto> 7 / 10, ''B'' \<mapsto> 3 / 10]]]) \<rparr>,
       feat_binner = FeatureBinner_init \<rparr>"

definition word_features :: "string \<Rightarrow> token list" where
  "word_features e = [[(''word'', PStr e)]]"

text \<open>\<^verbatim>\<open>repr\<close> of a string free of quotes, backslashes and unprintable characters.\<close>

definition quote_repr :: "string \<Rightarrow> string" where
  "quote_repr p = CHR 0x27 # p @ [CHR 0x27]"

definition unloaded_classifier :: "nat Classifier" where
  "unloaded_classifier = \<lparr> class_name = ''DomainClassifier'', model = None \<rparr>"

section \<open>The binary search\<close>

declare bsearch_left.simps [simp del]
declare fit_loop.simps [simp del]

lemma bsearch_left_bounds:
  "lo \<le> hi \<Longrightarrow> lo \<le> bsearch_left a k lo hi \<and> bsearch_left a k lo hi \<le> hi"
proof (induction a k lo hi rule: bsearch_left.induct)
  case (1 a key lo hi)
  show ?case
  proof (cases "lo < hi")
    case False
    then have "bsearch_left a key lo hi = lo"
      by (simp add: bsearch_left.simps [of a key lo hi])
    then show ?thesis using "1.prems" by simp
  next
    case True
    define mid where "mid = lo + (hi - lo) div 2"
    have m: "lo \<le> mid" "mid < hi" using True by (auto simp: mid_def)
    show ?thesis
    proof (cases "a ! mid < key")
      case True
      from "1.IH"(1) [OF \<open>lo < hi\<close> mid_def True] m
      have "mid + 1 \<le> bsearch_left a key (mid + 1) hi \<and> bsearch_left a key (mid + 1) hi \<le> hi"
        by simp
      then show ?thesis using m True \<open>lo < hi\<close>
        by (simp add: bsearch_left.simps [of a key lo hi] mid_def [symmetric] Let_def)
    next
      case False
      from "1.IH"(2) [OF \<open>lo < hi\<close> mid_def False] m
      have "lo \<le> bsearch_left a key lo mid \<and> bsearch_left a key lo mid \<le> mid"
        by simp
      then show ?thesis using m False \<open>lo < hi\<close>
        by (simp add: bsearch_left.simps [of a key lo hi] mid_def [symmetric] Let_def)
    qed
  qed
qed

lemma bsearch_left_mono:
  "lo \<le> hi \<Longrightarrow> k1 \<le> k2 \<Longrightarrow> bsearch_left a k1 lo hi \<le> bsearch_left a k2 lo hi"
proof (induction a k1 lo hi rule: bsearch_left.induct)
  case (1 a key lo hi)
  show ?case
  proof (cases "lo < hi")
    case False
    then show ?thesis
      by (simp add: bsearch_left.simps [of a key lo hi] bsearch_left.simps [of a k2 lo hi])
  next
    case True
    define mid where "mid = lo + (hi - lo) div 2"
    have m: "lo \<le> mid" "mid < hi" using True by (auto simp: mid_def)
    have u1: "bsearch_left a key lo hi =
        (if a ! mid < key then bsearch_left a key (mid + 1) hi else bsearch_left a key lo mid)"
      using True by (simp add: bsearch_left.simps [of a key lo hi] mid_def [symmetric] Let_def)
    have u2: "bsearch_left a k2 lo hi =
        (if a ! mid < k2 then bsearch_left a k2 (mid + 1) hi else bsearch_left a k2 lo mid)"
      using True by (simp add: bsearch_left.simps [of a k2 lo hi] mid_def [symmetric] Let_def)
    show ?thesis
    proof (cases "a ! mid < key")
      case True
      then have "a ! mid < k2" using "1.prems" by simp
      moreover have "bsearch_left a key (mid + 1) hi \<le> bsearch_left a k2 (mid + 1) hi"
        using "1.IH"(1) [OF \<open>lo < hi\<close> mid_def True] m "1.prems" by simp
      ultimately show ?thesis using True u1 u2 by simp
    next
      case False
      have ih: "bsearch_left a key lo mid \<le> bsearch_left a k2 lo mid"
        using "1.IH"(2) [OF \<open>lo < hi\<close> mid_def False] m "1.prems" by simp
      show ?thesis
      proof (cases "a ! mid < k2")
        case False
        with ih u1 u2 \<open>\<not> a ! mid < key\<close> show ?thesis by simp
      next
        case True
        have "bsearch_left a key lo mid \<le> mid" using bsearch_left_bounds [of lo mid a key] m by simp
        moreover have "mid + 1 \<le> bsearch_left a k2 (mid + 1) hi"
          using bsearch_left_bounds [of "mid + 1" hi a k2] m by simp
        ultimately show ?thesis using True u1 u2 \<open>\<not> a ! mid < key\<close> by simp
      qed
    qed
  qed
qed

lemma bsearch_left_sorted:
  "sorted a \<Longrightarrow> lo \<le> hi \<Longrightarrow> hi \<le> length a \<Longrightarrow>
   (\<forall>i<lo. a ! i < k) \<Longrightarrow> (\<forall>i. hi \<le> i \<and> i < length a \<longrightarrow> k \<le> a ! i) \<Longrightarrow>
   (\<forall>i<bsearch_left a k lo hi. a ! i < k) \<and>
   (\<forall>i. bsearch_left a k lo hi \<le> i \<and> i < length a \<longrightarrow> k \<le> a ! i)"
proof (induction a k lo hi rule: bsearch_left.induct)
  case (1 a key lo hi)
  show ?case
  proof (cases "lo < hi")
    case False
    then have "bsearch_left a key lo hi = lo"
      by (simp add: bsearch_left.simps [of a key lo hi])
    moreover have "lo = hi" using False "1.prems" by simp
    ultimately show ?thesis using "1.prems" by simp
  next
    case True
    define mid where "mid = lo + (hi - lo) div 2"
    have m: "lo \<le> mid" "mid < hi" using True by (auto simp: mid_def)
    have u1: "bsearch_left a key lo hi =
        (if a ! mid < key then bsearch_left a key (mid + 1) hi else bsearch_left a key lo mid)"
      using True by (simp add: bsearch_left.simps [of a key lo hi] mid_def [symmetric] Let_def)
    show ?thesis
    proof (cases "a ! mid < key")
      case True
      have below: "\<forall>i<mid + 1. a ! i < key"
      proof (intro allI impI)
        fix i assume "i < mid + 1"
        then have "i \<le> mid" by simp
        then have "a ! i \<le> a ! mid"
          using \<open>sorted a\<close> m "1.prems"(3) by (auto intro: sorted_nth_mono)
        then show "a ! i < key" using True by simp
      qed
      from "1.IH"(1) [OF \<open>lo < hi\<close> mid_def True \<open>sorted a\<close> _ "1.prems"(3) below "1.prems"(5)] m
      show ?thesis using True u1 by simp
    next
      case False
      have above: "\<forall>i. mid \<le> i \<and> i < length a \<longrightarrow> key \<le> a ! i"
      proof (intro allI impI)
        fix i assume "mid \<le> i \<and> i < length a"
        then have "a ! mid \<le> a ! i"
          using \<open>sorted a\<close> by (auto intro: sorted_nth_mono)
        then show "key \<le> a ! i" using False by simp
      qed
      have "mid \<le> length a" using m "1.prems"(3) by simp
      from "1.IH"(2) [OF \<open>lo < hi\<close> mid_def False \<open>sorted a\<close> m(1) this "1.prems"(4) above]
      show ?thesis using False u1 by simp
    qed
  qed
qed

lemma filter_split_count:
  assumes "r \<le> length a" "\<forall>i<r. P (a ! i)" "\<forall>i. r \<le> i \<and> i < length a \<longrightarrow> \<not> P (a ! i)"
  shows "length (filter P a) = r"
proof -
  have "filter P (take r a) = take r a"
    using assms(1,2) by (auto simp: filter_id_conv in_set_conv_nth)
  moreover have "filter P (drop r a) = []"
    using assms(1,3) by (auto simp: filter_empty_conv in_set_conv_nth)
  moreover have "filter P a = filter P (take r a) @ filter P (drop r a)"
    by (metis append_take_drop_id filter_append)
  ultimately show ?thesis using assms(1) by simp
qed

lemma searchsorted_sorted:
  assumes "sorted a"
  shows "searchsorted a v = length (filter (\<lambda>b. b < v) a)"
proof -
  let ?r = "bsearch_left a v 0 (length a)"
  have b: "?r \<le> length a" using bsearch_left_bounds [of 0 "length a" a v] by simp
  have c: "(\<forall>i<?r. a ! i < v) \<and> (\<forall>i. ?r \<le> i \<and> i < length a \<longrightarrow> v \<le> a ! i)"
    using bsearch_left_sorted [OF assms, where lo = 0 and hi = "length a" and k = v] by simp
  then have "\<forall>i. ?r \<le> i \<and> i < length a \<longrightarrow> \<not> a ! i < v" by (simp add: not_less)
  with b c have "length (filter (\<lambda>b. b < v) a) = ?r" by (intro filter_split_count) auto
  then show ?thesis by (simp add: searchsorted_def)
qed






lemma searchsorted_mono: "v1 \<le> v2 \<Longrightarrow> searchsorted a v1 \<le> searchsorted a v2"
  unfolding searchsorted_def by (rule bsearch_left_mono) auto

section \<open>What fit computes\<close>

lemma fit_loop_eq:
  "fit_loop n sd sz rs bins =
     bins @ map (\<lambda>k. rs + real k * (sd * sz)) [1..<Suc (if ZERO < sd then nat n else 0)]"
proof (induction n sd sz rs bins rule: fit_loop.induct)
  case (1 num_bin sd size_std range_start bins)
  show ?case
  proof (cases "num_bin > 0 \<and> sd > ZERO")
    case False
    then show ?thesis
      by (auto simp: fit_loop.simps [of num_bin sd size_std range_start bins])
  next
    case True
    define rs' where "rs' = range_start + sd * size_std"
    define j where "j = nat (num_bin - 1)"
    have j: "nat num_bin = Suc j" "nat (num_bin - 1) = j"
      using True by (simp_all add: j_def Suc_nat_eq_nat_zadd1)
    have "fit_loop num_bin sd size_std range_start bins =
          fit_loop (num_bin - 1) sd size_std rs' (bins @ [rs'])"
      using True by (simp add: fit_loop.simps [of num_bin sd size_std range_start bins] rs'_def Let_def)
    also have "\<dots> = (bins @ [rs']) @ map (\<lambda>k. rs' + real k * (sd * size_std)) [1..<Suc j]"
      using "1.IH" [OF True rs'_def] True j by simp
    also have "\<dots> = bins @ map (\<lambda>k. range_start + real k * (sd * size_std)) [1..<Suc (Suc j)]"
    proof -
      have "[1..<Suc (Suc j)] = 1 # map Suc [1..<Suc j]"
        by (metis One_nat_def map_Suc_upt upt_conv_Cons zero_less_Suc Suc_less_eq)
      then show ?thesis
        by (simp add: rs'_def algebra_simps comp_def)
    qed
    finally show ?thesis using True j by simp
  qed
qed


lemma fit_bins:
  assumes "FeatureMapper_fit m = Inr m'"
  shows "fm_std_bins m' =
     map (\<lambda>k. np_mean (fm_values m) - np_std (fm_values m) * fm_num_std m
                + real k * (np_std (fm_values m) * fm_size_std m))
       [0..<Suc (if ZERO < np_std (fm_values m)
                 then nat (2 * py_int (fm_num_std m / fm_size_std m)) else 0)]"
proof -
  have "[0..<Suc n] = 0 # [1..<Suc n]" for n
    by (simp add: upt_conv_Cons)
  then show ?thesis
    using assms
    by (auto simp: FeatureMapper_fit_def Let_def fit_loop_eq split: if_splits)
qed

lemma fit_stats:
  assumes "FeatureMapper_fit m = Inr m'"
  shows "fm_values m \<noteq> []" "fm_size_std m \<noteq> 0"
    "fm_mean m' = Some (np_mean (fm_values m))" "fm_std m' = Some (np_std (fm_values m))"
    "fm_values m' = fm_values m" "fm_num_std m' = fm_num_std m" "fm_size_std m' = fm_size_std m"
  using assms by (auto simp: FeatureMapper_fit_def Let_def split: if_splits)

lemma FeatureMapper_fit_returns:
  "fm_values m \<noteq> [] \<Longrightarrow> fm_size_std m \<noteq> 0 \<Longrightarrow> \<exists>m'. FeatureMapper_fit m = Inr m'"
  by (simp add: FeatureMapper_fit_def Let_def)

lemma np_std_nonneg: "0 \<le> np_std xs"
  by (auto simp: np_std_def np_mean_def intro!: divide_nonneg_nonneg sum_list_nonneg)




lemma searchsorted_single: "searchsorted [c] v = (if c < v then 1 else 0)"
  by (simp add: searchsorted_def bsearch_left.simps [of "[c]" v 0 "Suc 0"]
      bsearch_left.simps [of "[c]" v 0 0] bsearch_left.simps [of "[c]" v "Suc 0" "Suc 0"])

lemma ZERO_pos: "0 < ZERO"
  by (simp add: ZERO_def)


lemma fit_constant_mapper: "FeatureMapper_fit constant_mapper = Inr constant_fitted"
proof -
  have v: "fm_values constant_mapper = [5]"
    by (simp add: constant_mapper_def add_value_def FeatureMapper_init_def)
  have "np_mean [5] = 5" by (simp add: np_mean_def)
  moreover have "np_std [5] = 0" by (simp add: np_std_def np_mean_def)
  moreover have "\<not> ZERO < 0" using ZERO_pos by simp
  ultimately show ?thesis
    by (simp add: FeatureMapper_fit_def v Let_def fit_loop.simps [of _ 0]
        constant_mapper_def constant_fitted_def add_value_def FeatureMapper_init_def)
qed

lemma scenario_stats:
  "np_mean [1, 2, 3, 4, 5] = 3" "np_std [1, 2, 3, 4, 5] = sqrt 2"
proof -
  show m: "np_mean [1, 2, 3, 4, 5] = 3" by (simp add: np_mean_def)
  have "np_mean (map (\<lambda>x. (x - 3)\<^sup>2) [1, 2, 3, 4, 5]) = 2"
    by (simp add: np_mean_def power2_eq_square)
  then show "np_std [1, 2, 3, 4, 5] = sqrt 2"
    by (simp add: np_std_def m)
qed

lemma sqrt2_bounds: "1 < sqrt 2" "sqrt 2 < 2"
proof -
  show "1 < sqrt 2" by simp
  have "sqrt 2 < sqrt 4" by (rule real_sqrt_less_mono) simp
  moreover have "sqrt 4 = 2" by simp
  ultimately show "sqrt 2 < 2" by linarith
qed

lemma ZERO_less_sqrt2: "ZERO < sqrt 2"
proof -
  have "ZERO < 1" by (simp add: ZERO_def)
  then show ?thesis using sqrt2_bounds(1) by linarith
qed

lemma py_int_4: "py_int 4 = 4" "py_int (- 2) = - 2"
  by (simp_all add: py_int_def)

lemma fit_scenario_mapper: "FeatureMapper_fit scenario_mapper = Inr scenario_fitted"
proof -
  have v: "fm_values scenario_mapper = [1, 2, 3, 4, 5]"
    by (simp add: scenario_mapper_def add_value_def FeatureMapper_init_def)
  obtain m' where m': "FeatureMapper_fit scenario_mapper = Inr m'"
    using FeatureMapper_fit_returns [of scenario_mapper] v
    by (auto simp: scenario_mapper_def add_value_def FeatureMapper_init_def)
  have p: "fm_num_std scenario_mapper = 2" "fm_size_std scenario_mapper = 1 / 2"
    "fm_feat_name scenario_mapper = None"
    by (simp_all add: scenario_mapper_def add_value_def FeatureMapper_init_def)
  have "fm_std_bins m' = map (\<lambda>k. 3 - 2 * sqrt 2 + real k * (sqrt 2 / 2)) [0..<9]"
    using fit_bins [OF m'] ZERO_less_sqrt2
    by (simp add: v p scenario_stats py_int_4 del: upt_Suc) (simp add: algebra_simps)?
  moreover have "fm_feat_name m' = None"
    using m' p by (auto simp: FeatureMapper_fit_def Let_def split: if_splits)
  ultimately have "m' = scenario_fitted"
    using fit_stats [OF m']
    by (simp add: scenario_fitted_def v p scenario_stats del: upt_Suc)
  then show ?thesis using m' by simp
qed



lemma fit_bins_sorted:
  assumes "FeatureMapper_fit m = Inr m'" "0 \<le> fm_size_std m"
  shows "sorted (fm_std_bins m')"
proof -
  have "0 \<le> np_std (fm_values m) * fm_size_std m"
    using assms(2) np_std_nonneg by simp
  then show ?thesis
    unfolding fit_bins [OF assms(1)] sorted_iff_nth_mono
    by (auto simp del: upt_Suc intro!: mult_right_mono)
qed

section \<open>Claims about FeatureMapper\<close>

text \<open>
  C2 (the code at the failing input). The claim reads the bucket as the number of
  boundaries at or below the value, which is also what the class docstring documents
  (\<^verbatim>\<open>bucket 1: [mean - std * 2, mean - std * 1.5)\<close>). A mapper fitted on the single value
  \<^verbatim>\<open>5.0\<close> has the one boundary \<^verbatim>\<open>5.0\<close>; looking up \<^verbatim>\<open>5.0\<close> itself gives bucket 0, while
  one boundary is at or below it.
\<close>

theorem map_bucket_at_boundary:
  "FeatureMapper_fit constant_mapper = Inr constant_fitted \<and>
   fm_std_bins constant_fitted = [5] \<and>
   map_bucket constant_fitted 5 = 0 \<and>
   length (filter (\<lambda>b. b \<le> 5) (fm_std_bins constant_fitted)) = 1"
  by (simp add: fit_constant_mapper map_bucket_def searchsorted_single constant_fitted_def)

text \<open>
  What the search does return on a fitted mapper with a non-negative bin width: the number
  of boundaries strictly below the value.
\<close>

lemma map_bucket_counts_smaller:
  assumes "FeatureMapper_fit m = Inr m'" "0 \<le> fm_size_std m"
  shows "map_bucket m' v = length (filter (\<lambda>b. b < v) (fm_std_bins m'))"
  unfolding map_bucket_def
  by (rule searchsorted_sorted) (rule fit_bins_sorted [OF assms])




text \<open>
  C5. For every mapper fitted on a non-empty list of values and all lookup values
  \<open>v1 < v2\<close>, the bucket of \<open>v1\<close> is at most the bucket of \<open>v2\<close>. The binary search is
  monotonic in its key on any array, so no assumption on the parameters is needed.
\<close>

theorem map_bucket_monotonic:
  assumes "fm_values m \<noteq> []" "FeatureMapper_fit m = Inr m'" "v1 < v2"
  shows "map_bucket m' v1 \<le> map_bucket m' v2"
  unfolding map_bucket_def using assms(3) by (intro searchsorted_mono) simp

theorem map_bucket_monotonic_witness:
  "fm_values scenario_mapper \<noteq> [] \<and>
   FeatureMapper_fit scenario_mapper = Inr scenario_fitted \<and>
   (2::real) < 4 \<and>
   map_bucket scenario_fitted 2 \<le> map_bucket scenario_fitted 4"
proof -
  have v: "fm_values scenario_mapper \<noteq> []"
    by (simp add: scenario_mapper_def add_value_def FeatureMapper_init_def)
  have lt: "(2::real) < 4" by simp
  show ?thesis
    using map_bucket_monotonic [OF v fit_scenario_mapper lt] v fit_scenario_mapper by simp
qed




section \<open>What transform does to one token\<close>

lemma map_feature_shape:
  "map_feature pf b k v = Inr fs \<Longrightarrow> \<exists>v'. fs = [(k, v')]"
  by (auto simp: map_feature_def split: sum.splits option.splits if_splits)

lemma transform_word_other_key:
  "transform_word pf b acc w = Inr out \<Longrightarrow> k \<notin> fst ` set w \<Longrightarrow> map_of out k = map_of acc k"
proof (induction w arbitrary: acc)
  case Nil
  then show ?case by simp
next
  case (Cons p w)
  obtain k' v where p: "p = (k', v)" by (cases p)
  from Cons.prems(1) p obtain fs where
    fs: "map_feature pf b k' v = Inr fs"
    and rest: "transform_word pf b (if fs \<noteq> [] then dict_update acc fs else acc) w = Inr out"
    by (auto split: sum.splits)
  from map_feature_shape [OF fs] obtain v' where v': "fs = [(k', v')]" by blast
  have "k \<noteq> k'" using Cons.prems(2) p by auto
  moreover have "map_of out k = map_of (AList.update k' v' acc) k"
    using Cons.IH [OF rest] Cons.prems(2) v' by simp
  ultimately show ?case by (simp add: update_conv')
qed

lemma transform_word_key:
  "transform_word pf b acc w = Inr out \<Longrightarrow> distinct (map fst w) \<Longrightarrow> (k, v) \<in> set w \<Longrightarrow>
   map_feature pf b k v = Inr [(k, v')] \<Longrightarrow> map_of out k = Some v'"
proof (induction w arbitrary: acc)
  case Nil
  then show ?case by simp
next
  case (Cons p w)
  obtain k0 v0 where p: "p = (k0, v0)" by (cases p)
  from Cons.prems(1) p obtain fs where
    fs: "map_feature pf b k0 v0 = Inr fs"
    and rest: "transform_word pf b (if fs \<noteq> [] then dict_update acc fs else acc) w = Inr out"
    by (auto split: sum.splits)
  from map_feature_shape [OF fs] obtain v0' where v0': "fs = [(k0, v0')]" by blast
  show ?case
  proof (cases "(k, v) \<in> set w")
    case True
    then show ?thesis using Cons.IH [OF rest _ True Cons.prems(4)] Cons.prems(2) by simp
  next
    case False
    then have eq: "k0 = k" "v0 = v" using Cons.prems(3) p by auto
    then have "k \<notin> fst ` set w" using Cons.prems(2) p by auto
    from transform_word_other_key [OF rest this]
    have "map_of out k = map_of (AList.update k0 v0' acc) k" using v0' by simp
    moreover have "v0' = v'" using fs v0' eq Cons.prems(4) by simp
    ultimately show ?thesis using eq by (simp add: update_conv')
  qed
qed

lemma transform_sentence_nth:
  "transform_sentence pf b ws = Inr out \<Longrightarrow>
   length out = length ws \<and> (\<forall>t<length ws. transform_word pf b [] (ws ! t) = Inr (out ! t))"
proof (induction ws arbitrary: out)
  case Nil
  then show ?case by simp
next
  case (Cons w ws)
  from Cons.prems obtain nw nr where
    nw: "transform_word pf b [] w = Inr nw" and nr: "transform_sentence pf b ws = Inr nr"
    and out: "out = nw # nr"
    by (auto split: sum.splits)
  show ?case using Cons.IH [OF nr] nw out by (auto simp: nth_Cons split: nat.splits)
qed

lemma transform_nth:
  "transform pf b X = Inr Y \<Longrightarrow>
   length Y = length X \<and> (\<forall>s<length X. transform_sentence pf b (X ! s) = Inr (Y ! s))"
proof (induction X arbitrary: Y)
  case Nil
  then show ?case by simp
next
  case (Cons x X)
  from Cons.prems obtain ns nr where
    ns: "transform_sentence pf b x = Inr ns" and nr: "transform pf b X = Inr nr"
    and out: "Y = ns # nr"
    by (auto split: sum.splits)
  show ?case using Cons.IH [OF nr] ns out by (auto simp: nth_Cons split: nat.splits)
qed

lemma transform_token:
  assumes "transform pf b X = Inr Y" "s < length X" "t < length (X ! s)"
  shows "s < length Y" "t < length (Y ! s)"
    "transform_word pf b [] (X ! s ! t) = Inr (Y ! s ! t)"
proof -
  from transform_nth [OF assms(1)] assms(2)
  have l: "length Y = length X" and ts: "transform_sentence pf b (X ! s) = Inr (Y ! s)"
    by auto
  show "s < length Y" using l assms(2) by simp
  from transform_sentence_nth [OF ts] assms(3)
  show "t < length (Y ! s)" "transform_word pf b [] (X ! s ! t) = Inr (Y ! s ! t)"
    by auto
qed

lemma map_feature_unmapped:
  "py_float pf v = Inr x \<Longrightarrow> map_of (features b) k = None \<Longrightarrow>
   map_feature pf b k v = Inr [(k, PFloat x)]"
  by (simp add: map_feature_def)

lemma transform_unmapped_numeric:
  assumes "transform pf b X = Inr Y" "s < length X" "t < length (X ! s)"
    and "distinct (map fst (X ! s ! t))" "(name, v) \<in> set (X ! s ! t)"
    and "py_float pf v = Inr x" "map_of (features b) name = None"
  shows "map_of (Y ! s ! t) name = Some (PFloat x)"
  using transform_word_key [OF transform_token(3) [OF assms(1-3)] assms(4,5)
      map_feature_unmapped [OF assms(6,7)]] .

section \<open>Claims about FeatureBinner\<close>

lemma py_float_examples:
  "py_float parse_decimal (PStr ''NN'') = Inl ValueError"
  "py_float parse_decimal (PStr ''5'') = Inr 5"
  "py_float parse_decimal (PStr ''12'') = Inr 12"
  by (simp_all add: digit_val_def)

lemma fit_pos_only:
  "FeatureBinner_fit parse_decimal FeatureBinner_init [[[(''pos'', PStr ''NN'')]]] =
     Inr FeatureBinner_init"
  by (simp add: FeatureBinner_fit_def collect_feature_def digit_val_def FeatureBinner_init_def)

lemma transform_len_unfitted:
  "transform parse_decimal FeatureBinner_init [[[(''len'', PStr ''5'')]]] =
     Inr [[[(''len'', PFloat 5)]]]"
  by (simp add: map_feature_def digit_val_def FeatureBinner_init_def)

text \<open>
  C1 (counterexample). A binner fitted on \<^verbatim>\<open>[[{"pos": "NN"}]]\<close> has no mapper for
  \<^verbatim>\<open>"len"\<close>; transforming \<^verbatim>\<open>[[{"len": "5"}]]\<close> keeps the feature in the output token, as
  \<^verbatim>\<open>{"len": 5.0}\<close>: the pair is not dropped.
\<close>

theorem unmapped_numeric_not_dropped:
  "FeatureBinner_fit parse_decimal FeatureBinner_init [[[(''pos'', PStr ''NN'')]]] =
     Inr FeatureBinner_init \<and>
   map_of (features FeatureBinner_init) ''len'' = None \<and>
   py_float parse_decimal (PStr ''5'') = Inr 5 \<and>
   transform parse_decimal FeatureBinner_init [[[(''len'', PStr ''5'')]]] =
     Inr [[[(''len'', PFloat 5)]]]"
proof -
  have "map_of (features FeatureBinner_init) ''len'' = None"
    by (simp add: FeatureBinner_init_def)
  then show ?thesis
    using fit_pos_only transform_len_unfitted py_float_examples(2) by simp
qed

text \<open>
  C1 (as amended). For every binner and every token feature (name, value) of a dataset
  passed to \<^verbatim>\<open>transform\<close> whose value coerces to a number while the binner has no mapper
  for the name, the feature is kept: the corresponding output token holds the pair of the
  name and the coerced float.
\<close>

theorem unmapped_numeric_kept:
  assumes "transform pf self X = Inr Y"
    and "s < length X" and "t < length (X ! s)"
    and "distinct (map fst (X ! s ! t))"
    and "(feat_name, feat_value) \<in> set (X ! s ! t)"
    and "py_float pf feat_value = Inr x"
    and "map_of (features self) feat_name = None"
  shows "s < length Y \<and> t < length (Y ! s) \<and> (feat_name, PFloat x) \<in> set (Y ! s ! t)"
proof -
  have "map_of (Y ! s ! t) feat_name = Some (PFloat x)"
    using assms by (rule transform_unmapped_numeric)
  then have "(feat_name, PFloat x) \<in> set (Y ! s ! t)"
    by (rule map_of_SomeD)
  then show ?thesis using transform_token(1,2) [OF assms(1-3)] by simp
qed

theorem unmapped_numeric_kept_witness:
  "transform parse_decimal FeatureBinner_init [[[(''len'', PStr ''5'')]]] =
     Inr [[[(''len'', PFloat 5)]]] \<and>
   (''len'', PFloat 5) \<in> set ([[[(''len'', PFloat 5)]]] ! 0 ! 0)"
proof -
  let ?X = "[[[(''len'', PStr ''5'')]]]"
  have h: "0 < length ?X" "0 < length (?X ! 0)" "distinct (map fst (?X ! 0 ! 0))"
    "(''len'', PStr ''5'') \<in> set (?X ! 0 ! 0)"
    by simp_all
  have n: "map_of (features FeatureBinner_init) ''len'' = None"
    by (simp add: FeatureBinner_init_def)
  from unmapped_numeric_kept [OF transform_len_unfitted h py_float_examples(2) n]
  show ?thesis using transform_len_unfitted by simp
qed

lemma fit_feat_name:
  "FeatureMapper_fit m = Inr m' \<Longrightarrow>
   FeatureMapper_fit (m\<lparr> fm_feat_name := n \<rparr>) = Inr (m'\<lparr> fm_feat_name := n \<rparr>)"
  by (auto simp: FeatureMapper_fit_def Let_def split: if_splits)

lemma fit_len:
  "FeatureBinner_fit parse_decimal FeatureBinner_init [[[(''len'', PInt 5)]]] = Inr len_binner"
proof -
  have c: "collect_dataset parse_decimal FeatureBinner_init [[[(''len'', PInt 5)]]] =
      Inr len_collected"
    by (simp add: collect_feature_def FeatureBinner_init_def len_collected_def
        constant_mapper_def add_value_def FeatureMapper_init_def)
  have "FeatureMapper_fit (constant_mapper\<lparr> fm_feat_name := Some ''len'' \<rparr>) =
      Inr (constant_fitted\<lparr> fm_feat_name := Some ''len'' \<rparr>)"
    using fit_constant_mapper by (rule fit_feat_name)
  then have "fit_mappers (features len_collected) =
      Inr [(''len'', constant_fitted\<lparr> fm_feat_name := Some ''len'' \<rparr>)]"
    by (simp add: len_collected_def)
  then show ?thesis
    unfolding FeatureBinner_fit_def c by (simp add: len_collected_def len_binner_def)
qed

lemma transform_len_binner:
  "transform parse_decimal len_binner
     [[[(''len'', PInt 5), (''cnt'', PStr ''12''), (''pos'', PStr ''NN'')]]] =
     Inr [[[(''len'', PInt 0), (''cnt'', PFloat 12), (''pos'', PStr ''NN'')]]]"
proof -
  have "map_bucket (constant_fitted\<lparr> fm_feat_name := Some ''len'' \<rparr>) 5 = 0"
    by (simp add: map_bucket_def constant_fitted_def searchsorted_single)
  then show ?thesis
    by (simp add: map_feature_def digit_val_def len_binner_def)
qed

text \<open>
  C10. For every binner, when \<^verbatim>\<open>transform\<close> meets a feature value that coerces to a number
  under a name without a mapper, the output token maps that name to the coerced float,
  not to the value as it came in: in the witness the string \<^verbatim>\<open>"12"\<close> comes out as the
  float \<^verbatim>\<open>12.0\<close>.
\<close>

theorem unmapped_numeric_coerced:
  assumes "transform pf self X = Inr Y"
    and "s < length X" and "t < length (X ! s)"
    and "distinct (map fst (X ! s ! t))"
    and "(feat_name, feat_value) \<in> set (X ! s ! t)"
    and "py_float pf feat_value = Inr x"
    and "map_of (features self) feat_name = None"
  shows "map_of (Y ! s ! t) feat_name = Some (PFloat x)"
  using assms by (rule transform_unmapped_numeric)

theorem unmapped_numeric_coerced_witness:
  "FeatureBinner_fit parse_decimal FeatureBinner_init [[[(''len'', PInt 5)]]] = Inr len_binner \<and>
   transform parse_decimal len_binner
     [[[(''len'', PInt 5), (''cnt'', PStr ''12''), (''pos'', PStr ''NN'')]]] =
     Inr [[[(''len'', PInt 0), (''cnt'', PFloat 12), (''pos'', PStr ''NN'')]]] \<and>
   map_of ([[[(''len'', PInt 0), (''cnt'', PFloat 12), (''pos'', PStr ''NN'')]]] ! 0 ! 0) ''cnt'' =
     Some (PFloat 12) \<and>
   PFloat 12 \<noteq> PStr ''12''"
proof -
  let ?X = "[[[(''len'', PInt 5), (''cnt'', PStr ''12''), (''pos'', PStr ''NN'')]]]"
  have h: "0 < length ?X" "0 < length (?X ! 0)" "distinct (map fst (?X ! 0 ! 0))"
    "(''cnt'', PStr ''12'') \<in> set (?X ! 0 ! 0)"
    by simp_all
  have n: "map_of (features len_binner) ''cnt'' = None"
    by (simp add: len_binner_def)
  from unmapped_numeric_coerced [OF transform_len_binner h py_float_examples(3) n]
  show ?thesis using fit_len transform_len_binner by simp
qed

lemma py_float_errors: "py_float pf v = Inl e \<Longrightarrow> e = ValueError \<or> e = TypeError"
  by (cases v) (auto split: option.splits)

text \<open>
  C7 (the code at the failing input). The docstrings type a feature value as \<^verbatim>\<open>any\<close> and
  the comments promise to skip or pass through what is not numeric, but only
  \<^verbatim>\<open>ValueError\<close> is caught: for the value \<^verbatim>\<open>None\<close> the coercion raises \<^verbatim>\<open>TypeError\<close>,
  which leaves both \<^verbatim>\<open>fit\<close> and \<^verbatim>\<open>transform\<close> on the dataset \<^verbatim>\<open>[[{"f": None}]]\<close>.
\<close>

theorem none_value_raises:
  "FeatureBinner_fit parse_decimal FeatureBinner_init [[[(''f'', PNone)]]] = Inl TypeError \<and>
   transform parse_decimal FeatureBinner_init [[[(''f'', PNone)]]] = Inl TypeError"
  by (simp add: FeatureBinner_fit_def collect_feature_def map_feature_def)

text \<open>
  What does hold: when no feature value makes the coercion raise \<^verbatim>\<open>TypeError\<close>, neither
  the collection loops nor \<^verbatim>\<open>transform\<close> raise; a value that fails with \<^verbatim>\<open>ValueError\<close> is
  skipped by the collection and passed through by \<^verbatim>\<open>transform\<close>.
\<close>

lemma collect_feature_returns:
  "py_float pf v \<noteq> Inl TypeError \<Longrightarrow> \<exists>b'. collect_feature pf b k v = Inr b'"
  by (auto simp: collect_feature_def Let_def split: sum.splits dest: py_float_errors)

lemma collect_feature_skips:
  "py_float pf v = Inl ValueError \<Longrightarrow> collect_feature pf b k v = Inr b"
  by (simp add: collect_feature_def)

lemma map_feature_passes_through:
  "py_float pf v = Inl ValueError \<Longrightarrow> map_feature pf b k v = Inr [(k, v)]"
  by (simp add: map_feature_def)

lemma map_feature_returns:
  "py_float pf v \<noteq> Inl TypeError \<Longrightarrow> \<exists>fs. map_feature pf b k v = Inr fs"
  by (auto simp: map_feature_def split: sum.splits option.splits dest: py_float_errors)

lemma collect_word_returns:
  "(\<forall>(k, v)\<in>set w. py_float pf v \<noteq> Inl TypeError) \<Longrightarrow> \<exists>b'. collect_word pf b w = Inr b'"
proof (induction w arbitrary: b)
  case Nil
  then show ?case by simp
next
  case (Cons p w)
  obtain k v where p: "p = (k, v)" by (cases p)
  then obtain b1 where "collect_feature pf b k v = Inr b1"
    using collect_feature_returns [of pf v b k] Cons.prems by auto
  moreover obtain b2 where "collect_word pf b1 w = Inr b2"
    using Cons.IH [of b1] Cons.prems by auto
  ultimately show ?case using p by simp
qed

lemma collect_sentence_returns:
  "(\<forall>w\<in>set ws. \<forall>(k, v)\<in>set w. py_float pf v \<noteq> Inl TypeError) \<Longrightarrow>
   \<exists>b'. collect_sentence pf b ws = Inr b'"
proof (induction ws arbitrary: b)
  case Nil
  then show ?case by simp
next
  case (Cons w ws)
  obtain b1 where "collect_word pf b w = Inr b1"
    using collect_word_returns [of w pf b] Cons.prems by auto
  moreover obtain b2 where "collect_sentence pf b1 ws = Inr b2"
    using Cons.IH [of b1] Cons.prems by auto
  ultimately show ?case by simp
qed

lemma collect_dataset_returns:
  "(\<forall>ws\<in>set X. \<forall>w\<in>set ws. \<forall>(k, v)\<in>set w. py_float pf v \<noteq> Inl TypeError) \<Longrightarrow>
   \<exists>b'. collect_dataset pf b X = Inr b'"
proof (induction X arbitrary: b)
  case Nil
  then show ?case by simp
next
  case (Cons ws X)
  obtain b1 where "collect_sentence pf b ws = Inr b1"
    using collect_sentence_returns [of ws pf b] Cons.prems by auto
  moreover obtain b2 where "collect_dataset pf b1 X = Inr b2"
    using Cons.IH [of b1] Cons.prems by auto
  ultimately show ?case by simp
qed

lemma transform_word_returns:
  "(\<forall>(k, v)\<in>set w. py_float pf v \<noteq> Inl TypeError) \<Longrightarrow>
   \<exists>out. transform_word pf b acc w = Inr out"
proof (induction w arbitrary: acc)
  case Nil
  then show ?case by simp
next
  case (Cons p w)
  obtain k v where p: "p = (k, v)" by (cases p)
  then obtain fs where fs: "map_feature pf b k v = Inr fs"
    using map_feature_returns [of pf v b k] Cons.prems by auto
  obtain out where
    "transform_word pf b (if fs \<noteq> [] then dict_update acc fs else acc) w = Inr out"
    using Cons.IH Cons.prems by (meson list.set_intros(2))
  then show ?case using p fs by simp
qed

lemma transform_sentence_returns:
  "(\<forall>w\<in>set ws. \<forall>(k, v)\<in>set w. py_float pf v \<noteq> Inl TypeError) \<Longrightarrow>
   \<exists>out. transform_sentence pf b ws = Inr out"
proof (induction ws)
  case Nil
  then show ?case by simp
next
  case (Cons w ws)
  obtain nw where "transform_word pf b [] w = Inr nw"
    using transform_word_returns [of w pf b "[]"] Cons.prems by auto
  moreover obtain nr where "transform_sentence pf b ws = Inr nr"
    using Cons.IH Cons.prems by auto
  ultimately show ?case by simp
qed

lemma transform_returns:
  "(\<forall>ws\<in>set X. \<forall>w\<in>set ws. \<forall>(k, v)\<in>set w. py_float pf v \<noteq> Inl TypeError) \<Longrightarrow>
   \<exists>Y. transform pf b X = Inr Y"
proof (induction X)
  case Nil
  then show ?case by simp
next
  case (Cons ws X)
  obtain ns where "transform_sentence pf b ws = Inr ns"
    using transform_sentence_returns [of ws pf b] Cons.prems by auto
  moreover obtain nr where "transform pf b X = Inr nr"
    using Cons.IH Cons.prems by auto
  ultimately show ?case by simp
qed

section \<open>The mappers a binner collects\<close>

lemma set_update_subset: "set (AList.update k v al) \<subseteq> insert (k, v) (set al)"
  by (induction al) auto

lemma collect_feature_invariant:
  assumes "collect_feature pf b k v = Inr b'"
    and "\<forall>(n, m)\<in>set (features b). fm_values m \<noteq> [] \<and> fm_size_std m \<noteq> 0"
  shows "\<forall>(n, m)\<in>set (features b'). fm_values m \<noteq> [] \<and> fm_size_std m \<noteq> 0"
proof (cases "py_float pf v")
  case (Inl e)
  then show ?thesis using assms by (auto simp: collect_feature_def split: if_splits)
next
  case (Inr x)
  define old where "old = (case map_of (features b) k of
      None \<Rightarrow> FeatureMapper_init 2 (1 / 2) | Some m \<Rightarrow> m)"
  define new where "new = add_value (old\<lparr> fm_feat_name := Some k \<rparr>) x"
  have b': "features b' = AList.update k new (features b)"
    using assms(1) Inr by (auto simp: collect_feature_def Let_def old_def new_def)
  have "fm_size_std old \<noteq> 0"
  proof (cases "map_of (features b) k")
    case None
    then show ?thesis by (simp add: old_def FeatureMapper_init_def)
  next
    case (Some m)
    then have "(k, m) \<in> set (features b)" by (rule map_of_SomeD)
    then show ?thesis using assms(2) Some by (auto simp: old_def)
  qed
  then have new: "fm_values new \<noteq> [] \<and> fm_size_std new \<noteq> 0"
    by (simp add: new_def add_value_def)
  have "set (features b') \<subseteq> insert (k, new) (set (features b))"
    unfolding b' by (rule set_update_subset)
  then show ?thesis using new assms(2) by auto
qed

lemma collect_word_invariant:
  "collect_word pf b w = Inr b' \<Longrightarrow>
   \<forall>(n, m)\<in>set (features b). fm_values m \<noteq> [] \<and> fm_size_std m \<noteq> 0 \<Longrightarrow>
   \<forall>(n, m)\<in>set (features b'). fm_values m \<noteq> [] \<and> fm_size_std m \<noteq> 0"
proof (induction w arbitrary: b)
  case Nil
  then show ?case by simp
next
  case (Cons p w)
  obtain k v where p: "p = (k, v)" by (cases p)
  from Cons.prems(1) p obtain b1 where
    b1: "collect_feature pf b k v = Inr b1" and rest: "collect_word pf b1 w = Inr b'"
    by (auto split: sum.splits)
  show ?case
    by (rule Cons.IH [OF rest]) (rule collect_feature_invariant [OF b1 Cons.prems(2)])
qed

lemma collect_sentence_invariant:
  "collect_sentence pf b ws = Inr b' \<Longrightarrow>
   \<forall>(n, m)\<in>set (features b). fm_values m \<noteq> [] \<and> fm_size_std m \<noteq> 0 \<Longrightarrow>
   \<forall>(n, m)\<in>set (features b'). fm_values m \<noteq> [] \<and> fm_size_std m \<noteq> 0"
proof (induction ws arbitrary: b)
  case Nil
  then show ?case by simp
next
  case (Cons w ws)
  from Cons.prems(1) obtain b1 where
    b1: "collect_word pf b w = Inr b1" and rest: "collect_sentence pf b1 ws = Inr b'"
    by (auto split: sum.splits)
  show ?case
    by (rule Cons.IH [OF rest]) (rule collect_word_invariant [OF b1 Cons.prems(2)])
qed

lemma collect_dataset_invariant:
  "collect_dataset pf b X = Inr b' \<Longrightarrow>
   \<forall>(n, m)\<in>set (features b). fm_values m \<noteq> [] \<and> fm_size_std m \<noteq> 0 \<Longrightarrow>
   \<forall>(n, m)\<in>set (features b'). fm_values m \<noteq> [] \<and> fm_size_std m \<noteq> 0"
proof (induction X arbitrary: b)
  case Nil
  then show ?case by simp
next
  case (Cons ws X)
  from Cons.prems(1) obtain b1 where
    b1: "collect_sentence pf b ws = Inr b1" and rest: "collect_dataset pf b1 X = Inr b'"
    by (auto split: sum.splits)
  show ?case
    by (rule Cons.IH [OF rest]) (rule collect_sentence_invariant [OF b1 Cons.prems(2)])
qed

lemma fit_mappers_returns:
  "\<forall>(n, m)\<in>set fs. fm_values m \<noteq> [] \<and> fm_size_std m \<noteq> 0 \<Longrightarrow> \<exists>fs'. fit_mappers fs = Inr fs'"
proof (induction fs)
  case Nil
  then show ?case by simp
next
  case (Cons p fs)
  obtain n m where p: "p = (n, m)" by (cases p)
  then obtain m' where "FeatureMapper_fit m = Inr m'"
    using FeatureMapper_fit_returns [of m] Cons.prems by auto
  moreover obtain fs' where "fit_mappers fs = Inr fs'"
    using Cons.IH Cons.prems by auto
  ultimately show ?case using p by simp
qed





text \<open>
  Hence \<^verbatim>\<open>FeatureBinner.fit\<close> on a new binner returns whenever no feature value makes the
  coercion raise \<^verbatim>\<open>TypeError\<close>.
\<close>

lemma FeatureBinner_fit_returns:
  assumes "\<forall>ws\<in>set X. \<forall>w\<in>set ws. \<forall>(k, v)\<in>set w. py_float pf v \<noteq> Inl TypeError"
  shows "\<exists>b'. FeatureBinner_fit pf FeatureBinner_init X = Inr b'"
proof -
  obtain b where b: "collect_dataset pf FeatureBinner_init X = Inr b"
    using collect_dataset_returns [OF assms] by blast
  have "\<forall>(n, m)\<in>set (features FeatureBinner_init). fm_values m \<noteq> [] \<and> fm_size_std m \<noteq> 0"
    by (simp add: FeatureBinner_init_def)
  with b have "\<forall>(n, m)\<in>set (features b). fm_values m \<noteq> [] \<and> fm_size_std m \<noteq> 0"
    by (rule collect_dataset_invariant)
  then obtain fs where "fit_mappers (features b) = Inr fs"
    using fit_mappers_returns by blast
  then show ?thesis using b by (simp add: FeatureBinner_fit_def)
qed

section \<open>Claims about CRFTagger.predict_proba\<close>

lemma marginal_at_Inr:
  "marginal_at M q i tag = Inr p \<longleftrightarrow>
     q < length M \<and> i < length (M ! q) \<and> (M ! q ! i) tag = Some p"
  by (auto simp: marginal_at_def list_get_def dict_get_def split: option.splits)

lemma query_marginal_tuples_nth:
  "query_marginal_tuples M q i tags = Inr R \<Longrightarrow>
   length R = length tags \<and>
   (\<forall>j<length tags. fst (R ! j) = tags ! j \<and> marginal_at M q (i + j) (tags ! j) = Inr (snd (R ! j)))"
proof (induction tags arbitrary: i R)
  case Nil
  then show ?case by simp
next
  case (Cons tag tags)
  from Cons.prems obtain p R' where
    p: "marginal_at M q i tag = Inr p"
    and R': "query_marginal_tuples M q (Suc i) tags = Inr R'"
    and R: "R = (tag, p) # R'"
    by (auto split: sum.splits)
  show ?case using Cons.IH [OF R'] p R by (auto simp: nth_Cons split: nat.splits)
qed

lemma marginal_tuples_nth:
  "marginal_tuples M q seq = Inr R \<Longrightarrow>
   length R = length seq \<and>
   (\<forall>j<length seq. query_marginal_tuples M (q + j) 0 (seq ! j) = Inr (R ! j))"
proof (induction seq arbitrary: q R)
  case Nil
  then show ?case by simp
next
  case (Cons query_seq seq)
  from Cons.prems obtain T R' where
    T: "query_marginal_tuples M q 0 query_seq = Inr T"
    and R': "marginal_tuples M (Suc q) seq = Inr R'"
    and R: "R = T # R'"
    by (auto split: sum.splits)
  show ?case using Cons.IH [OF R'] T R by (auto simp: nth_Cons split: nat.splits)
qed

lemma query_marginal_tuples_returns:
  "(\<forall>j<length tags. \<exists>p. marginal_at M q (i + j) (tags ! j) = Inr p) \<Longrightarrow>
   \<exists>R. query_marginal_tuples M q i tags = Inr R"
proof (induction tags arbitrary: i)
  case Nil
  then show ?case by simp
next
  case (Cons tag tags)
  from Cons.prems [rule_format, of 0] obtain p where p: "marginal_at M q i tag = Inr p"
    by auto
  have "\<forall>j<length tags. \<exists>p. marginal_at M q (Suc i + j) (tags ! j) = Inr p"
  proof (intro allI impI)
    fix j assume "j < length tags"
    then show "\<exists>p. marginal_at M q (Suc i + j) (tags ! j) = Inr p"
      using Cons.prems [rule_format, of "Suc j"] by simp
  qed
  from Cons.IH [OF this] obtain R where "query_marginal_tuples M q (Suc i) tags = Inr R"
    by blast
  then show ?case using p by simp
qed

lemma marginal_tuples_returns:
  "(\<forall>j<length seq. \<forall>i<length (seq ! j). \<exists>p. marginal_at M (q + j) i (seq ! j ! i) = Inr p) \<Longrightarrow>
   \<exists>R. marginal_tuples M q seq = Inr R"
proof (induction seq arbitrary: q)
  case Nil
  then show ?case by simp
next
  case (Cons query_seq seq)
  have "\<forall>i<length query_seq. \<exists>p. marginal_at M q (0 + i) (query_seq ! i) = Inr p"
    using Cons.prems [rule_format, of 0] by simp
  from query_marginal_tuples_returns [OF this]
  obtain T where T: "query_marginal_tuples M q 0 query_seq = Inr T" by blast
  have "\<forall>j<length seq. \<forall>i<length (seq ! j). \<exists>p. marginal_at M (Suc q + j) i (seq ! j ! i) = Inr p"
  proof (intro allI impI)
    fix j i assume "j < length seq" "i < length (seq ! j)"
    then show "\<exists>p. marginal_at M (Suc q + j) i (seq ! j ! i) = Inr p"
      using Cons.prems [rule_format, of "Suc j" i] by simp
  qed
  from Cons.IH [OF this] obtain R where "marginal_tuples M (Suc q) seq = Inr R" by blast
  then show ?case using T by simp
qed

lemma extract_features_no_fit:
  "extract_features pf extract self examples False = Inr (self', X) \<longleftrightarrow>
     self' = self \<and> transform pf (feat_binner self) (map extract examples) = Inr X"
  by (auto simp: extract_features_def preprocess_data_def split: sum.splits)

text \<open>
  When the features can be extracted, the model's marginals cover every predicted token
  and give a mass to its predicted label, \<^verbatim>\<open>predict_proba\<close> returns.
\<close>

lemma predict_proba_returns:
  assumes "extract_features pf extract self examples False = Inr (self, X)"
    and "\<forall>q<length (predict self X). \<forall>i<length (predict self X ! q).
           \<exists>p. marginal_at (clf_predict_marginals (clf self) X) q i (predict self X ! q ! i) = Inr p"
  shows "\<exists>R. predict_proba pf extract self examples = Inr R"
  using marginal_tuples_returns [of "predict self X" "clf_predict_marginals (clf self) X" 0]
    assms
  by (simp add: predict_proba_def predict_def)

text \<open>
  C6. Whenever \<^verbatim>\<open>predict_proba\<close> returns, its result has the shape of what \<^verbatim>\<open>predict\<close>
  returns on the same features, and the entry for each token pairs the label that
  \<^verbatim>\<open>predict\<close> gives that position with the mass that the token's marginal assigns to that
  very label. In the witness that mass is 0.3 while the largest mass of the marginal is
  0.7.
\<close>

theorem predict_proba_confidence:
  assumes "predict_proba pf extract self examples = Inr R"
  shows "\<exists>X. extract_features pf extract self examples False = Inr (self, X) \<and>
    length R = length (predict self X) \<and>
    (\<forall>q<length R. length (R ! q) = length (predict self X ! q) \<and>
       (\<forall>i<length (R ! q).
          fst (R ! q ! i) = predict self X ! q ! i \<and>
          q < length (clf_predict_marginals (clf self) X) \<and>
          i < length (clf_predict_marginals (clf self) X ! q) \<and>
          (clf_predict_marginals (clf self) X ! q ! i) (predict self X ! q ! i) =
            Some (snd (R ! q ! i))))"
proof -
  from assms obtain self' X where
    ex: "extract_features pf extract self examples False = Inr (self', X)"
    and mt: "marginal_tuples (clf_predict_marginals (clf self') X) 0 (clf_predict (clf self') X) = Inr R"
    by (auto simp: predict_proba_def Let_def split: sum.splits)
  have self': "self' = self" using ex by (simp add: extract_features_no_fit)
  let ?M = "clf_predict_marginals (clf self) X"
  let ?seq = "predict self X"
  have mt': "marginal_tuples ?M 0 ?seq = Inr R" using mt self' by (simp add: predict_def)
  from marginal_tuples_nth [OF mt']
  have len: "length R = length ?seq"
    and rows: "\<forall>q<length ?seq. query_marginal_tuples ?M q 0 (?seq ! q) = Inr (R ! q)"
    by auto
  have "length (R ! q) = length (?seq ! q) \<and>
       (\<forall>i<length (R ! q).
          fst (R ! q ! i) = ?seq ! q ! i \<and> q < length ?M \<and> i < length (?M ! q) \<and>
          (?M ! q ! i) (?seq ! q ! i) = Some (snd (R ! q ! i)))" if "q < length R" for q
  proof -
    have "query_marginal_tuples ?M q 0 (?seq ! q) = Inr (R ! q)"
      using rows that len by simp
    from query_marginal_tuples_nth [OF this] show ?thesis
      by (auto simp: marginal_at_Inr)
  qed
  then show ?thesis using ex self' len by blast
qed

theorem predict_proba_confidence_witness:
  "predict_proba parse_decimal word_features example_tagger [''hi''] = Inr [[(''B'', 3 / 10)]] \<and>
   predict example_tagger [[[(''word'', PStr ''hi'')]]] = [[''B'']] \<and>
   (clf_predict_marginals (clf example_tagger) [[[(''word'', PStr ''hi'')]]] ! 0 ! 0) ''B'' =
     Some (3 / 10) \<and>
   (clf_predict_marginals (clf example_tagger) [[[(''word'', PStr ''hi'')]]] ! 0 ! 0) ''O'' =
     Some (7 / 10)"
proof -
  have ex: "extract_features parse_decimal word_features example_tagger [''hi''] False =
      Inr (example_tagger, [[[(''word'', PStr ''hi'')]]])"
    by (simp add: extract_features_no_fit word_features_def example_tagger_def
        FeatureBinner_init_def map_feature_def digit_val_def)
  have pp: "predict_proba parse_decimal word_features example_tagger [''hi''] =
      Inr [[(''B'', 3 / 10)]]"
    unfolding predict_proba_def ex
    by (simp add: example_tagger_def marginal_at_def list_get_def dict_get_def)
  from predict_proba_confidence [OF pp]
  show ?thesis using pp by (simp add: example_tagger_def predict_def)
qed

section \<open>Claims about Classifier.load\<close>

text \<open>
  C8. For every path at which the file system holds no file, \<^verbatim>\<open>Classifier.load\<close> leaves
  with a \<^verbatim>\<open>ClassifierLoadError\<close> whose message is built from the class name and the
  \<^verbatim>\<open>repr\<close> of the path, not with the file-not-found error, and the classifier, its model
  included, is as it was before the call.
\<close>

theorem load_missing_file:
  assumes "fs model_path = None"
  shows "load repr fs unpickle self model_path =
    (self, Some (ClassifierLoadError
       (''Unable to load '' @ class_name self @ ''. Pickle file not found at '' @ repr model_path)))"
  using assms by (simp add: load_def joblib_load_def load_msg_def)

theorem load_missing_file_witness:
  "(Map.empty :: string \<rightharpoonup> nat) ''models/domain.pkl'' = None \<and>
   load quote_repr (Map.empty :: string \<rightharpoonup> nat) Inr unloaded_classifier ''models/domain.pkl'' =
     (unloaded_classifier,
      Some (ClassifierLoadError
        (''Unable to load DomainClassifier. Pickle file not found at ''
           @ CHR 0x27 # ''models/domain.pkl'' @ [CHR 0x27])))"
proof -
  have h: "(Map.empty :: string \<rightharpoonup> nat) ''models/domain.pkl'' = None" by simp
  from load_missing_file [OF h, of quote_repr Inr unloaded_classifier]
  show ?thesis by (simp add: quote_repr_def unloaded_classifier_def)
qed

end
